theory Spec2Isabelle
  imports Complex_Main "HOL-Library.AList"
begin

section \<open>The token lifecycle of server.js\<close>

text \<open>
  The development embeds the token part of \<^verbatim>\<open>src/server.js\<close>: the two module-level
  containers \<^verbatim>\<open>tokenStore\<close> and \<^verbatim>\<open>blacklistedTokens\<close>, the middleware
  \<^verbatim>\<open>verifyToken\<close>, the sweep \<^verbatim>\<open>cleanupExpiredTokens\<close> and the handlers of
  \<^verbatim>\<open>POST /auth/token\<close>, \<^verbatim>\<open>POST /auth/refresh\<close> and \<^verbatim>\<open>POST /auth/revoke\<close>.

  Everything the code reads from its environment is a parameter of the model: the
  value of each \<^verbatim>\<open>Date.now()\<close> call (an integer number of milliseconds), the value
  of each \<^verbatim>\<open>generateToken()\<close> call, the \<^verbatim>\<open>Authorization\<close> header and the fields
  of the JSON body. Mutation of the two containers is explicit state passing.
  One request is handled at a time (Node runs each synchronous handler to completion),
  so a handler is a function from the state before to a response and the state after.
\<close>

subsection \<open>JavaScript values\<close>

text \<open>
  The fields \<^verbatim>\<open>userId\<close> and \<^verbatim>\<open>hwid\<close> come out of \<^verbatim>\<open>req.body\<close>, parsed by
  \<^verbatim>\<open>express.json()\<close>: any JSON value, or \<^verbatim>\<open>undefined\<close> when the key is absent.
  The code tests their truthiness (\<^verbatim>\<open>!userId\<close>, \<^verbatim>\<open>hwid || null\<close>) and converts
  \<^verbatim>\<open>userId\<close> to a string in its log lines. A number is the parsed double, as the real
  it stands for; an object is the list of its own keys with their values.
\<close>

datatype js_value =
    JUndefined
  | JNull
  | JBool bool
  | JNum real
  | JStr string
  | JArr "js_value list"
  | JObj "(string \<times> js_value) list"

text \<open>JavaScript's ToBoolean: the falsy values are undefined, null, false, 0 and the
  empty string; every object and array is truthy.\<close>

fun truthy :: "js_value \<Rightarrow> bool" where
  "truthy JUndefined = False"
| "truthy JNull = False"
| "truthy (JBool b) = b"
| "truthy (JNum x) = (x \<noteq> 0)"
| "truthy (JStr s) = (s \<noteq> [])"
| "truthy (JArr xs) = True"
| "truthy (JObj kvs) = True"

text \<open>
  JavaScript's ToString, as the template literals of the log lines apply it
  (\<^verbatim>\<open>`... ${userId}`\<close>), throws a \<^verbatim>\<open>TypeError\<close> on some parsed values. An object
  with an own key \<^verbatim>\<open>toString\<close> hides \<^verbatim>\<open>Object.prototype.toString\<close> behind a
  value that cannot be called, and \<^verbatim>\<open>valueOf\<close> (its own, not callable either, or the
  inherited one, which returns the object) yields no primitive. Every other object
  prints as \<^verbatim>\<open>[object Object]\<close>. An array joins the strings of its elements (null
  as the empty string), so it throws when one of them does. Primitives never throw.
\<close>

fun to_string_throws :: "js_value \<Rightarrow> bool" where
  "to_string_throws JUndefined = False"
| "to_string_throws JNull = False"
| "to_string_throws (JBool b) = False"
| "to_string_throws (JNum x) = False"
| "to_string_throws (JStr s) = False"
| "to_string_throws (JArr xs) = list_ex to_string_throws xs"
| "to_string_throws (JObj kvs) = (''toString'' \<in> set (map fst kvs))"

text \<open>\<^verbatim>\<open>a || b\<close> on values.\<close>

definition js_or :: "js_value \<Rightarrow> js_value \<Rightarrow> js_value" where
  "js_or a b = (if truthy a then a else b)"

text \<open>\<^verbatim>\<open>s.startsWith(p)\<close> and \<^verbatim>\<open>s.substring(n)\<close> on strings.\<close>

definition startsWith :: "string \<Rightarrow> string \<Rightarrow> bool" where
  "startsWith s p = (take (length p) s = p)"

definition substring :: "string \<Rightarrow> nat \<Rightarrow> string" where
  "substring s n = drop n s"

subsection \<open>The state\<close>

type_synonym token = string

text \<open>The object stored under a token (lines 165-170 and 202-207).\<close>

record token_data =
  userId :: js_value
  hwid :: js_value
  expires :: int
  createdAt :: int

text \<open>
  \<^verbatim>\<open>tokenStore\<close> is a JavaScript \<^verbatim>\<open>Map\<close>: its entries in insertion order, one per
  key. \<^verbatim>\<open>Map.get\<close> is \<^const>\<open>map_of\<close>, \<^verbatim>\<open>Map.set\<close> is \<^const>\<open>AList.update\<close>
  (replace the value in place, or append a new entry) and \<^verbatim>\<open>Map.delete\<close> is
  \<^const>\<open>AList.delete\<close>. \<^verbatim>\<open>blacklistedTokens\<close> is a \<^verbatim>\<open>Set\<close> of strings.
\<close>

record server_state =
  tokenStore :: "(token \<times> token_data) list"
  blacklistedTokens :: "token set"

text \<open>The state when the module has been loaded (lines 11-12).\<close>

definition initial_state :: server_state where
  "initial_state = \<lparr>tokenStore = [], blacklistedTokens = {}\<rparr>"

text \<open>A \<^verbatim>\<open>Map\<close> holds one entry per key.\<close>

definition store_ok :: "server_state \<Rightarrow> bool" where
  "store_ok s = distinct (map fst (tokenStore s))"

definition TOKEN_EXPIRY :: int where
  "TOKEN_EXPIRY = 3600000"

subsection \<open>verifyToken\<close>

text \<open>
  The five ways \<^verbatim>\<open>verifyToken\<close> ends (lines 67-96): four \<^verbatim>\<open>401\<close> responses and
  the call of \<^verbatim>\<open>next()\<close> with \<^verbatim>\<open>req.tokenData\<close> set.
\<close>

datatype gate =
    BearerRequired
  | Revoked
  | Unknown
  | Expired
  | Valid token_data

text \<open>The \<^verbatim>\<open>error\<close> string of each \<^verbatim>\<open>401\<close> response.\<close>

fun gate_error :: "gate \<Rightarrow> string" where
  "gate_error BearerRequired = ''Bearer token required''"
| "gate_error Revoked = ''Token has been revoked''"
| "gate_error Unknown = ''Invalid token''"
| "gate_error Expired = ''Token expired''"
| "gate_error (Valid tokenData) = ''''"

text \<open>Lines 76-95: the checks on the extracted token, at the time \<open>now\<close> that
  \<^verbatim>\<open>Date.now()\<close> returns on line 88.\<close>

definition check :: "token \<Rightarrow> int \<Rightarrow> server_state \<Rightarrow> gate \<times> server_state" where
  "check tok now s =
     (if tok \<in> blacklistedTokens s then (Revoked, s)
      else (case map_of (tokenStore s) tok of
              None \<Rightarrow> (Unknown, s)
            | Some tokenData \<Rightarrow>
                if now > expires tokenData
                then (Expired, s\<lparr>tokenStore := AList.delete tok (tokenStore s)\<rparr>)
                else (Valid tokenData, s)))"

text \<open>Lines 67-96. The header is absent (\<open>None\<close>) or a string.\<close>

definition verifyToken :: "string option \<Rightarrow> int \<Rightarrow> server_state \<Rightarrow> gate \<times> server_state" where
  "verifyToken authHeader now s =
     (case authHeader of
        None \<Rightarrow> (BearerRequired, s)
      | Some h \<Rightarrow>
          if h = [] \<or> \<not> startsWith h ''Bearer '' then (BearerRequired, s)
          else check (substring h 7) now s)"

text \<open>The header that presents a token.\<close>

definition bearer :: "token \<Rightarrow> string option" where
  "bearer tok = Some (''Bearer '' @ tok)"

subsection \<open>cleanupExpiredTokens\<close>

text \<open>
  Lines 125-130. The loop walks the entries of the map and deletes the current entry
  when it has expired. A deletion removes only the entry being visited, so the entries
  still to come are those of the map as it was when the loop started: the recursion
  runs over that list, with the map and the counter as accumulators.
\<close>

fun cleanup_loop ::
  "int \<Rightarrow> (token \<times> token_data) list \<Rightarrow> (token \<times> token_data) list \<Rightarrow> nat
     \<Rightarrow> (token \<times> token_data) list \<times> nat" where
  "cleanup_loop now [] store cleaned = (store, cleaned)"
| "cleanup_loop now ((tok, tdata) # entries) store cleaned =
     (if now > expires tdata
      then cleanup_loop now entries (AList.delete tok store) (Suc cleaned)
      else cleanup_loop now entries store cleaned)"

text \<open>Lines 121-135. The result is the counter \<^verbatim>\<open>cleaned\<close>, the number the log line
  prints (\<open>None\<close> when nothing is printed) and the state.\<close>

definition cleanupExpiredTokens :: "int \<Rightarrow> server_state \<Rightarrow> nat \<times> nat option \<times> server_state" where
  "cleanupExpiredTokens now s =
     (let (store, cleaned) = cleanup_loop now (tokenStore s) (tokenStore s) 0
      in (cleaned, (if cleaned > 0 then Some cleaned else None), s\<lparr>tokenStore := store\<rparr>))"

subsection \<open>The handlers\<close>

text \<open>
  The JSON responses: an error with its status, the body of a successful issue or
  refresh (the token, \<^verbatim>\<open>expires\<close> in milliseconds, which the code prints as an ISO
  date, and \<^verbatim>\<open>expiresIn\<close>), and the body of a successful revocation.
\<close>

datatype response =
    Failure nat string
  | TokenIssued token int nat
  | TokenRevoked

text \<open>
  Lines 152-183, the handler of \<^verbatim>\<open>POST /auth/token\<close>, reached after
  \<^verbatim>\<open>verifyApiKey\<close> and the rate limiter let the request through. \<open>uid\<close> and \<open>hw\<close>
  are the fields \<^verbatim>\<open>userId\<close> and \<^verbatim>\<open>hwid\<close> of the body object (\<open>JUndefined\<close> for an
  absent key). \<open>gen\<close> is what \<^verbatim>\<open>generateToken()\<close> does when it is called: \<open>Some\<close>
  token, or \<open>None\<close> when \<^verbatim>\<open>crypto.randomBytes\<close> throws, which the \<^verbatim>\<open>catch\<close> turns
  into a \<^verbatim>\<open>500\<close>. The generator is called only after the \<^verbatim>\<open>userId\<close> test has
  passed, so the first branch does not look at \<open>gen\<close>. The log line 172 converts
  \<^verbatim>\<open>userId\<close> to a string after \<^verbatim>\<open>tokenStore.set\<close> and before the response: when that
  throws, the \<^verbatim>\<open>catch\<close> answers \<^verbatim>\<open>500\<close> and the record stays stored. \<open>now\<close> is a
  time value of \<^verbatim>\<open>Date.now()\<close>, for which \<^verbatim>\<open>toISOString\<close> does not throw.
\<close>

definition auth_token ::
  "js_value \<Rightarrow> js_value \<Rightarrow> token option \<Rightarrow> int \<Rightarrow> server_state \<Rightarrow> response \<times> server_state" where
  "auth_token uid hw gen now s =
     (if \<not> truthy uid then (Failure 400 ''userId is required'', s)
      else (case gen of
              None \<Rightarrow> (Failure 500 ''Internal server error'', s)
            | Some tok \<Rightarrow>
                let exp = now + TOKEN_EXPIRY;
                    s1 = s\<lparr>tokenStore := AList.update tok
                           \<lparr>userId = uid, hwid = js_or hw JNull, expires = exp, createdAt = now\<rparr>
                           (tokenStore s)\<rparr>
                in if to_string_throws uid then (Failure 500 ''Internal server error'', s1)
                   else (TokenIssued tok exp 3600, s1)))"

text \<open>
  Lines 188-220, the body of the refresh handler, with \<^verbatim>\<open>req.tokenData\<close> as
  \<^verbatim>\<open>verifyToken\<close> set it. Reading \<^verbatim>\<open>substring\<close> of an absent header throws inside
  the \<^verbatim>\<open>try\<close>. The old token is blacklisted and deleted before the generator runs.
  The log line 209 converts the stored \<^verbatim>\<open>userId\<close> to a string after the new record
  is set: when that throws, the answer is \<^verbatim>\<open>500\<close> and all three writes stay.
\<close>

definition refresh_handler ::
  "string option \<Rightarrow> token_data \<Rightarrow> token option \<Rightarrow> int \<Rightarrow> server_state \<Rightarrow> response \<times> server_state" where
  "refresh_handler authHeader tokenData gen now s =
     (case authHeader of
        None \<Rightarrow> (Failure 500 ''Internal server error'', s)
      | Some h \<Rightarrow>
          let oldToken = substring h 7;
              s1 = s\<lparr>blacklistedTokens := insert oldToken (blacklistedTokens s)\<rparr>;
              s2 = s1\<lparr>tokenStore := AList.delete oldToken (tokenStore s1)\<rparr>
          in (case gen of
                None \<Rightarrow> (Failure 500 ''Internal server error'', s2)
              | Some newToken \<Rightarrow>
                  let exp = now + TOKEN_EXPIRY;
                      s3 = s2\<lparr>tokenStore := AList.update newToken
                             \<lparr>userId = userId tokenData, hwid = hwid tokenData,
                              expires = exp, createdAt = now\<rparr>
                             (tokenStore s2)\<rparr>
                  in if to_string_throws (userId tokenData)
                     then (Failure 500 ''Internal server error'', s3)
                     else (TokenIssued newToken exp 3600, s3)))"

text \<open>Lines 225-243, the body of the revoke handler. The log line 234 converts the
  stored \<^verbatim>\<open>userId\<close> to a string after both writes: when that throws, the answer is
  \<^verbatim>\<open>500\<close> and the writes stay.\<close>

definition revoke_handler ::
  "string option \<Rightarrow> token_data \<Rightarrow> server_state \<Rightarrow> response \<times> server_state" where
  "revoke_handler authHeader tokenData s =
     (case authHeader of
        None \<Rightarrow> (Failure 500 ''Internal server error'', s)
      | Some h \<Rightarrow>
          let tok = substring h 7;
              s1 = s\<lparr>blacklistedTokens := insert tok (blacklistedTokens s)\<rparr>;
              s2 = s1\<lparr>tokenStore := AList.delete tok (tokenStore s1)\<rparr>
          in if to_string_throws (userId tokenData)
             then (Failure 500 ''Internal server error'', s2)
             else (TokenRevoked, s2))"

text \<open>
  A route behind \<^verbatim>\<open>verifyToken\<close>: the middleware answers \<^verbatim>\<open>401\<close> itself, or sets
  \<^verbatim>\<open>req.tokenData\<close> and lets the handler run on the state it leaves.
\<close>

definition behind_verifyToken ::
  "string option \<Rightarrow> int \<Rightarrow> (token_data \<Rightarrow> server_state \<Rightarrow> response \<times> server_state)
     \<Rightarrow> server_state \<Rightarrow> response \<times> server_state" where
  "behind_verifyToken authHeader now handler s =
     (let (g, s') = verifyToken authHeader now s
      in (case g of
            Valid tokenData \<Rightarrow> handler tokenData s'
          | _ \<Rightarrow> (Failure 401 (gate_error g), s')))"

text \<open>Line 187: \<^verbatim>\<open>app.post('/auth/refresh', verifyToken, handler)\<close>. The middleware
  reads the clock at \<open>now\<close>, the handler at \<open>now'\<close>.\<close>

definition auth_refresh ::
  "string option \<Rightarrow> int \<Rightarrow> token option \<Rightarrow> int \<Rightarrow> server_state \<Rightarrow> response \<times> server_state" where
  "auth_refresh authHeader now gen now' s =
     behind_verifyToken authHeader now (\<lambda>tokenData. refresh_handler authHeader tokenData gen now') s"

text \<open>Line 224: \<^verbatim>\<open>app.post('/auth/revoke', verifyToken, handler)\<close>.\<close>

definition auth_revoke :: "string option \<Rightarrow> int \<Rightarrow> server_state \<Rightarrow> response \<times> server_state" where
  "auth_revoke authHeader now s =
     behind_verifyToken authHeader now (\<lambda>tokenData. revoke_handler authHeader tokenData) s"

subsection \<open>Runs of the server\<close>

text \<open>
  The events that touch the two containers: a request to one of the three token
  routes, a request to another route behind \<^verbatim>\<open>verifyToken\<close> (the webhook route,
  whose handler leaves the containers alone), and a tick of the cleanup timer.
\<close>

datatype event =
    Issue js_value js_value "token option" int
  | Refresh "string option" int "token option" int
  | Revoke "string option" int
  | Check "string option" int
  | Sweep int

fun step :: "event \<Rightarrow> server_state \<Rightarrow> server_state" where
  "step (Issue uid hw gen now) s = snd (auth_token uid hw gen now s)"
| "step (Refresh authHeader now gen now') s = snd (auth_refresh authHeader now gen now' s)"
| "step (Revoke authHeader now) s = snd (auth_revoke authHeader now s)"
| "step (Check authHeader now) s = snd (verifyToken authHeader now s)"
| "step (Sweep now) s = snd (snd (cleanupExpiredTokens now s))"

fun run :: "event list \<Rightarrow> server_state \<Rightarrow> server_state" where
  "run [] s = s"
| "run (e # es) s = run es (step e s)"

text \<open>
  The values the generator is set to return in a run, and the tokens a state knows:
  the keys of the store and the members of the blacklist. The spec takes the
  generator to be free of collisions (a token string is never issued twice); for a
  run that is: the value of the next call is not among \<open>gens\<close> of the events so far.
  A request that never gets to \<^verbatim>\<open>generateToken()\<close> ignores the value of its event,
  which may as well be \<open>None\<close>, so \<open>gens\<close> need hold no more than the values returned.
\<close>

fun gens_of :: "event \<Rightarrow> token set" where
  "gens_of (Issue uid hw gen now) = set_option gen"
| "gens_of (Refresh authHeader now gen now') = set_option gen"
| "gens_of (Revoke authHeader now) = {}"
| "gens_of (Check authHeader now) = {}"
| "gens_of (Sweep now) = {}"

fun gens :: "event list \<Rightarrow> token set" where
  "gens [] = {}"
| "gens (e # es) = gens_of e \<union> gens es"

definition known :: "server_state \<Rightarrow> token set" where
  "known s = fst ` set (tokenStore s) \<union> blacklistedTokens s"

subsection \<open>The spec's wording of the input check\<close>


subsection \<open>Example values\<close>

text \<open>Three strings of the shape \<^verbatim>\<open>generateToken\<close> returns (64 hexadecimal digits),
  and the object both handlers store for a session that starts at \<open>now\<close>.\<close>

definition token_a :: token where "token_a = replicate 64 (CHR ''a'')"

definition token_b :: token where "token_b = replicate 64 (CHR ''b'')"

definition token_c :: token where "token_c = replicate 64 (CHR ''c'')"

definition session :: "js_value \<Rightarrow> js_value \<Rightarrow> int \<Rightarrow> token_data" where
  "session uid hw now = \<lparr>userId = uid, hwid = hw, expires = now + TOKEN_EXPIRY, createdAt = now\<rparr>"

section \<open>Basic facts\<close>

lemma verifyToken_bearer: "verifyToken (bearer tok) now s = check tok now s"
  by (simp add: verifyToken_def bearer_def startsWith_def substring_def)

lemma check_blacklist [simp]: "blacklistedTokens (snd (check tok now s)) = blacklistedTokens s"
  by (simp add: check_def split: option.split)

lemma verifyToken_blacklist [simp]:
  "blacklistedTokens (snd (verifyToken authHeader now s)) = blacklistedTokens s"
  by (simp add: verifyToken_def split: option.split)

lemma cleanup_loop_filter:
  "cleanup_loop now es st c =
     (filter (\<lambda>p. \<not> (\<exists>d. (fst p, d) \<in> set es \<and> now > expires d)) st,
      c + length (filter (\<lambda>p. now > expires (snd p)) es))"
proof (induction es arbitrary: st c)
  case Nil
  then show ?case by simp
next
  case (Cons e es)
  obtain k d where e: "e = (k, d)" by (cases e)
  show ?case
  proof (cases "now > expires d")
    case True
    have "filter (\<lambda>p. \<not> (\<exists>d'. (fst p, d') \<in> set es \<and> now > expires d')) (AList.delete k st)
        = filter (\<lambda>p. \<not> (\<exists>d'. (fst p, d') \<in> set (e # es) \<and> now > expires d')) st"
      unfolding AList.delete_eq filter_filter
      by (rule filter_cong) (use True in \<open>auto simp: e\<close>)
    then show ?thesis using True by (simp add: e Cons.IH)
  next
    case False
    have "filter (\<lambda>p. \<not> (\<exists>d'. (fst p, d') \<in> set es \<and> now > expires d')) st
        = filter (\<lambda>p. \<not> (\<exists>d'. (fst p, d') \<in> set (e # es) \<and> now > expires d')) st"
      by (rule filter_cong) (use False in \<open>auto simp: e\<close>)
    then show ?thesis using False by (simp add: e Cons.IH)
  qed
qed

lemma cleanup_loop_self:
  assumes "distinct (map fst st)"
  shows "cleanup_loop now st st 0 =
     (filter (\<lambda>p. \<not> now > expires (snd p)) st,
      length (filter (\<lambda>p. now > expires (snd p)) st))"
proof -
  have "filter (\<lambda>p. \<not> (\<exists>d. (fst p, d) \<in> set st \<and> now > expires d)) st
      = filter (\<lambda>p. \<not> now > expires (snd p)) st"
  proof (rule filter_cong [OF refl])
    fix p assume p: "p \<in> set st"
    have "d = snd p" if "(fst p, d) \<in> set st" for d
      using assms p that by (metis eq_key_imp_eq_value prod.collapse)
    moreover have "(fst p, snd p) \<in> set st" using p by simp
    ultimately show "(\<not> (\<exists>d. (fst p, d) \<in> set st \<and> now > expires d)) = (\<not> now > expires (snd p))"
      by blast
  qed
  then show ?thesis by (simp add: cleanup_loop_filter)
qed

lemma revoke_handler_bearer:
  "revoke_handler (bearer tok) tokenData s =
     (if to_string_throws (userId tokenData) then Failure 500 ''Internal server error''
      else TokenRevoked,
      s\<lparr>blacklistedTokens := insert tok (blacklistedTokens s),
        tokenStore := AList.delete tok (tokenStore s)\<rparr>)"
  by (simp add: revoke_handler_def bearer_def substring_def)

lemma refresh_handler_bearer:
  "refresh_handler (bearer tok) tokenData (Some newToken) now s =
     (if to_string_throws (userId tokenData) then Failure 500 ''Internal server error''
      else TokenIssued newToken (now + TOKEN_EXPIRY) 3600,
      s\<lparr>blacklistedTokens := insert tok (blacklistedTokens s),
        tokenStore := AList.update newToken
          \<lparr>userId = userId tokenData, hwid = hwid tokenData,
           expires = now + TOKEN_EXPIRY, createdAt = now\<rparr>
          (AList.delete tok (tokenStore s))\<rparr>)"
  by (simp add: refresh_handler_def bearer_def substring_def Let_def)

lemma refresh_handler_bearer_None:
  "refresh_handler (bearer tok) tokenData None now s =
     (Failure 500 ''Internal server error'',
      s\<lparr>blacklistedTokens := insert tok (blacklistedTokens s),
        tokenStore := AList.delete tok (tokenStore s)\<rparr>)"
  by (simp add: refresh_handler_def bearer_def substring_def Let_def)

lemma behind_verifyToken_bearer:
  "behind_verifyToken (bearer tok) now handler s =
     (case fst (check tok now s) of
        Valid tokenData \<Rightarrow> handler tokenData (snd (check tok now s))
      | g \<Rightarrow> (Failure 401 (gate_error g), snd (check tok now s)))"
  by (simp add: behind_verifyToken_def verifyToken_bearer split_beta split: gate.split)

lemma auth_token_blacklist [simp]:
  "blacklistedTokens (snd (auth_token uid hw gen now s)) = blacklistedTokens s"
  by (simp add: auth_token_def Let_def split: option.split)

lemma cleanup_blacklist [simp]:
  "blacklistedTokens (snd (snd (cleanupExpiredTokens now s))) = blacklistedTokens s"
  by (simp add: cleanupExpiredTokens_def split_beta)

lemma revoke_handler_blacklist:
  "blacklistedTokens s \<subseteq> blacklistedTokens (snd (revoke_handler authHeader tokenData s))"
  by (auto simp: revoke_handler_def Let_def split: option.split)

lemma refresh_handler_blacklist:
  "blacklistedTokens s \<subseteq> blacklistedTokens (snd (refresh_handler authHeader tokenData gen now s))"
  by (auto simp: refresh_handler_def Let_def split: option.split)

lemma behind_verifyToken_blacklist:
  assumes "\<And>tokenData s'. blacklistedTokens s' \<subseteq> blacklistedTokens (snd (handler tokenData s'))"
  shows "blacklistedTokens s \<subseteq> blacklistedTokens (snd (behind_verifyToken authHeader now handler s))"
proof -
  obtain g s' where v: "verifyToken authHeader now s = (g, s')" by (cases "verifyToken authHeader now s")
  then have b: "blacklistedTokens s' = blacklistedTokens s"
    using verifyToken_blacklist [of authHeader now s] by simp
  show ?thesis
  proof (cases g)
    case (Valid tokenData)
    then show ?thesis using assms [of s' tokenData] b v by (simp add: behind_verifyToken_def)
  qed (use b v in \<open>simp_all add: behind_verifyToken_def\<close>)
qed

lemma step_blacklist: "blacklistedTokens s \<subseteq> blacklistedTokens (step e s)"
proof (cases e)
  case (Refresh authHeader now gen now')
  then show ?thesis
    by (simp add: auth_refresh_def behind_verifyToken_blacklist refresh_handler_blacklist)
next
  case (Revoke authHeader now)
  then show ?thesis
    by (simp add: auth_revoke_def behind_verifyToken_blacklist revoke_handler_blacklist)
qed simp_all

lemma run_blacklist: "blacklistedTokens s \<subseteq> blacklistedTokens (run es s)"
proof (induction es arbitrary: s)
  case Nil
  then show ?case by simp
next
  case (Cons e es)
  have "blacklistedTokens s \<subseteq> blacklistedTokens (step e s)" by (rule step_blacklist)
  also have "\<dots> \<subseteq> blacklistedTokens (run es (step e s))" by (rule Cons.IH)
  finally show ?case by simp
qed

lemma example_tokens_distinct [simp]:
  "token_a \<noteq> token_b" "token_b \<noteq> token_a"
  "token_a \<noteq> token_c" "token_c \<noteq> token_a"
  "token_b \<noteq> token_c" "token_c \<noteq> token_b"
  by (simp_all add: token_a_def token_b_def token_c_def)


text \<open>Every event keeps the store a map with one entry per key, so every state the
  server reaches from its initial state has such a store.\<close>

lemma check_store_ok: "store_ok s \<Longrightarrow> store_ok (snd (check tok now s))"
  by (simp add: check_def store_ok_def AList.distinct_delete split: option.split)

lemma verifyToken_store_ok: "store_ok s \<Longrightarrow> store_ok (snd (verifyToken authHeader now s))"
  by (simp add: verifyToken_def check_store_ok split: option.split)

lemma auth_token_store_ok: "store_ok s \<Longrightarrow> store_ok (snd (auth_token uid hw gen now s))"
  by (simp add: auth_token_def store_ok_def Let_def AList.distinct_update split: option.split)

lemma revoke_handler_store_ok:
  "store_ok s \<Longrightarrow> store_ok (snd (revoke_handler authHeader tokenData s))"
  by (simp add: revoke_handler_def store_ok_def Let_def AList.distinct_delete split: option.split)

lemma refresh_handler_store_ok:
  "store_ok s \<Longrightarrow> store_ok (snd (refresh_handler authHeader tokenData gen now s))"
  by (simp add: refresh_handler_def store_ok_def Let_def AList.distinct_delete AList.distinct_update
      split: option.split)

lemma behind_verifyToken_store_ok:
  assumes "\<And>tokenData s'. store_ok s' \<Longrightarrow> store_ok (snd (handler tokenData s'))"
    and "store_ok s"
  shows "store_ok (snd (behind_verifyToken authHeader now handler s))"
proof -
  obtain g s' where v: "verifyToken authHeader now s = (g, s')"
    by (cases "verifyToken authHeader now s")
  then have ok: "store_ok s'"
    using verifyToken_store_ok [OF assms(2), of authHeader now] by simp
  show ?thesis
  proof (cases g)
    case (Valid tokenData)
    then show ?thesis using assms(1) [OF ok, of tokenData] v by (simp add: behind_verifyToken_def)
  qed (use ok v in \<open>simp_all add: behind_verifyToken_def\<close>)
qed

lemma cleanup_store_ok: "store_ok s \<Longrightarrow> store_ok (snd (snd (cleanupExpiredTokens now s)))"
  by (simp add: cleanupExpiredTokens_def split_beta store_ok_def cleanup_loop_filter
      distinct_map_filter)

lemma step_store_ok: "store_ok s \<Longrightarrow> store_ok (step e s)"
proof (cases e)
  case (Refresh authHeader now gen now')
  assume "store_ok s"
  then show ?thesis
    by (simp add: Refresh auth_refresh_def behind_verifyToken_store_ok refresh_handler_store_ok)
next
  case (Revoke authHeader now)
  assume "store_ok s"
  then show ?thesis
    by (simp add: Revoke auth_revoke_def behind_verifyToken_store_ok revoke_handler_store_ok)
qed (simp_all add: auth_token_store_ok verifyToken_store_ok cleanup_store_ok)

lemma run_store_ok: "store_ok s \<Longrightarrow> store_ok (run es s)"
  by (induction es arbitrary: s) (simp_all add: step_store_ok)

lemma reachable_store_ok: "store_ok (run es initial_state)"
  by (rule run_store_ok) (simp add: store_ok_def initial_state_def)

text \<open>A reachable state knows only tokens the generator has returned: a token gets
  into the store from the generator, and onto the blacklist from the store.\<close>

lemma known_check: "known (snd (check tok now s)) \<subseteq> known s"
  using AList.dom_delete_subset [of tok "tokenStore s"]
  by (auto simp: check_def known_def split: option.split)

lemma known_verifyToken: "known (snd (verifyToken authHeader now s)) \<subseteq> known s"
  using known_check by (simp add: verifyToken_def split: option.split)

lemma check_Valid_stored:
  "fst (check tok now s) = Valid tokenData \<Longrightarrow>
     snd (check tok now s) = s \<and> map_of (tokenStore s) tok = Some tokenData \<and>
     tok \<notin> blacklistedTokens s \<and> \<not> now > expires tokenData"
  by (auto simp: check_def split: option.splits if_splits)

lemma verifyToken_Valid_stored:
  assumes "verifyToken authHeader now s = (Valid tokenData, s')"
  shows "s' = s \<and> (\<exists>h. authHeader = Some h \<and> substring h 7 \<in> fst ` set (tokenStore s))"
proof -
  from assms obtain h where h: "authHeader = Some h"
    and c: "check (substring h 7) now s = (Valid tokenData, s')"
    by (auto simp: verifyToken_def split: option.splits if_splits)
  from c have v: "fst (check (substring h 7) now s) = Valid tokenData"
    and s': "snd (check (substring h 7) now s) = s'" by simp_all
  from check_Valid_stored [OF v] s'
  have "s' = s" and "map_of (tokenStore s) (substring h 7) = Some tokenData" by simp_all
  then show ?thesis using h by (auto dest: map_of_SomeD intro: rev_image_eqI)
qed

lemma known_auth_token: "known (snd (auth_token uid hw gen now s)) \<subseteq> known s \<union> set_option gen"
  by (auto simp: auth_token_def known_def Let_def AList.dom_update split: option.split)

lemma known_revoke_handler:
  assumes "authHeader = Some h" and "substring h 7 \<in> fst ` set (tokenStore s)"
  shows "known (snd (revoke_handler authHeader tokenData s)) \<subseteq> known s"
  using assms AList.dom_delete_subset [of "substring h 7" "tokenStore s"]
  by (auto simp: revoke_handler_def known_def Let_def)

lemma known_refresh_handler:
  assumes "authHeader = Some h" and "substring h 7 \<in> fst ` set (tokenStore s)"
  shows "known (snd (refresh_handler authHeader tokenData gen now s)) \<subseteq> known s \<union> set_option gen"
  using assms AList.dom_delete_subset [of "substring h 7" "tokenStore s"]
  by (auto simp: refresh_handler_def known_def Let_def AList.dom_update split: option.split)

lemma known_auth_revoke: "known (snd (auth_revoke authHeader now s)) \<subseteq> known s"
proof -
  obtain g s' where v: "verifyToken authHeader now s = (g, s')"
    by (cases "verifyToken authHeader now s")
  show ?thesis
  proof (cases g)
    case (Valid tokenData)
    with v verifyToken_Valid_stored [of authHeader now s tokenData s']
    obtain h where "s' = s" "authHeader = Some h" "substring h 7 \<in> fst ` set (tokenStore s)"
      by auto
    then show ?thesis
      using v Valid known_revoke_handler [of authHeader h s tokenData]
      by (simp add: auth_revoke_def behind_verifyToken_def)
  qed (use v known_verifyToken [of authHeader now s] in
        \<open>simp_all add: auth_revoke_def behind_verifyToken_def\<close>)
qed

lemma known_auth_refresh:
  "known (snd (auth_refresh authHeader now gen now' s)) \<subseteq> known s \<union> set_option gen"
proof -
  obtain g s' where v: "verifyToken authHeader now s = (g, s')"
    by (cases "verifyToken authHeader now s")
  show ?thesis
  proof (cases g)
    case (Valid tokenData)
    with v verifyToken_Valid_stored [of authHeader now s tokenData s']
    obtain h where "s' = s" "authHeader = Some h" "substring h 7 \<in> fst ` set (tokenStore s)"
      by auto
    then show ?thesis
      using v Valid known_refresh_handler [of authHeader h s tokenData gen now']
      by (simp add: auth_refresh_def behind_verifyToken_def)
  qed (use v known_verifyToken [of authHeader now s] in
        \<open>auto simp add: auth_refresh_def behind_verifyToken_def\<close>)
qed

lemma known_cleanup: "known (snd (snd (cleanupExpiredTokens now s))) \<subseteq> known s"
  by (auto simp: cleanupExpiredTokens_def split_beta known_def cleanup_loop_filter)

lemma known_step: "known (step e s) \<subseteq> known s \<union> gens_of e"
  by (cases e)
     (simp_all add: known_auth_token known_auth_refresh known_auth_revoke known_verifyToken
        known_cleanup)

lemma known_run: "known (run es s) \<subseteq> known s \<union> gens es"
proof (induction es arbitrary: s)
  case Nil
  then show ?case by simp
next
  case (Cons e es)
  have "known (run es (step e s)) \<subseteq> known (step e s) \<union> gens es" by (rule Cons.IH)
  also have "\<dots> \<subseteq> (known s \<union> gens_of e) \<union> gens es"
    using known_step [of e s] by blast
  finally show ?case by (simp add: Un_assoc)
qed

lemma known_reachable: "known (run es initial_state) \<subseteq> gens es"
  using known_run [of es initial_state] by (simp add: known_def initial_state_def)

lemma fresh_unknown:
  assumes "tok \<notin> gens es"
  shows "tok \<notin> blacklistedTokens (run es initial_state)"
    and "tok \<notin> fst ` set (tokenStore (run es initial_state))"
  using assms known_reachable [of es] by (auto simp: known_def)

section \<open>The decision order of the gate\<close>

text \<open>
  C1. For every presented token and every state, \<open>check\<close> decides in this order: a
  blacklisted token is \<open>Revoked\<close>; otherwise a token with no record in the store is
  \<open>Unknown\<close>; otherwise, when the clock is strictly past the record's \<open>expires\<close>, the
  record is deleted from the store and the answer is \<open>Expired\<close>; otherwise the answer
  is \<open>Valid\<close> with the record. A token that is blacklisted and expired is \<open>Revoked\<close>.
  The middleware, given the header that presents the token, is \<open>check\<close>.
\<close>

theorem check_decision_order:
  "verifyToken (bearer tok) now s = check tok now s \<and>
   (tok \<in> blacklistedTokens s \<longrightarrow> check tok now s = (Revoked, s)) \<and>
   (tok \<notin> blacklistedTokens s \<and> map_of (tokenStore s) tok = None
      \<longrightarrow> check tok now s = (Unknown, s)) \<and>
   (tok \<notin> blacklistedTokens s \<and> map_of (tokenStore s) tok = Some r \<and> now > expires r
      \<longrightarrow> fst (check tok now s) = Expired \<and>
          blacklistedTokens (snd (check tok now s)) = blacklistedTokens s \<and>
          tokenStore (snd (check tok now s)) = AList.delete tok (tokenStore s) \<and>
          map_of (tokenStore (snd (check tok now s))) = (map_of (tokenStore s))(tok := None)) \<and>
   (tok \<notin> blacklistedTokens s \<and> map_of (tokenStore s) tok = Some r \<and> \<not> now > expires r
      \<longrightarrow> check tok now s = (Valid r, s)) \<and>
   (tok \<in> blacklistedTokens s \<and> map_of (tokenStore s) tok = Some r \<and> now > expires r
      \<longrightarrow> fst (check tok now s) = Revoked)"
  by (simp add: verifyToken_bearer check_def AList.delete_conv')

theorem check_decision_order_witness:
  "fst (check token_a 1700003600001
      \<lparr>tokenStore = [(token_a, session (JStr ''user123'') JNull 1700000000000)],
       blacklistedTokens = {token_a}\<rparr>) = Revoked \<and>
   check token_a 1700003600001 initial_state = (Unknown, initial_state) \<and>
   fst (check token_a 1700003600001
      \<lparr>tokenStore = [(token_a, session (JStr ''user123'') JNull 1700000000000)],
       blacklistedTokens = {}\<rparr>) = Expired \<and>
   tokenStore (snd (check token_a 1700003600001
      \<lparr>tokenStore = [(token_a, session (JStr ''user123'') JNull 1700000000000)],
       blacklistedTokens = {}\<rparr>)) = [] \<and>
   fst (check token_a 1700003600000
      \<lparr>tokenStore = [(token_a, session (JStr ''user123'') JNull 1700000000000)],
       blacklistedTokens = {}\<rparr>)
     = Valid (session (JStr ''user123'') JNull 1700000000000)"
proof -
  let ?r = "session (JStr ''user123'') JNull 1700000000000"
  let ?s = "\<lparr>tokenStore = [(token_a, ?r)], blacklistedTokens = {}\<rparr>"
  let ?b = "\<lparr>tokenStore = [(token_a, ?r)], blacklistedTokens = {token_a}\<rparr>"
  have late: "1700003600001 > expires ?r" and in_time: "\<not> 1700003600000 > expires ?r"
    by (simp_all add: session_def TOKEN_EXPIRY_def)
  have black: "token_a \<in> blacklistedTokens ?b" and clean: "token_a \<notin> blacklistedTokens ?s"
    and stored: "map_of (tokenStore ?s) token_a = Some ?r"
    and fresh: "token_a \<notin> blacklistedTokens initial_state"
               "map_of (tokenStore initial_state) token_a = None"
    by (simp_all add: initial_state_def)
  from check_decision_order [where tok = token_a and now = 1700003600001 and r = ?r and s = ?b]
    check_decision_order [where tok = token_a and now = 1700003600001 and s = initial_state]
    check_decision_order [where tok = token_a and now = 1700003600001 and r = ?r and s = ?s]
    check_decision_order [where tok = token_a and now = 1700003600000 and r = ?r and s = ?s]
    late in_time black clean stored fresh
  show ?thesis by simp
qed

section \<open>Refresh\<close>



section \<open>Revoked for good\<close>

text \<open>
  C3. Once a request to revoke the token \<open>tok\<close> has succeeded, \<open>check\<close> answers
  \<open>Revoked\<close> for \<open>tok\<close> at every later time, after every sequence of issue, refresh,
  revoke, check and sweep events, whatever their parameters: no event removes a
  token from the blacklist. The same holds when the handler has made its writes and
  then answers \<^verbatim>\<open>500\<close> because its log line threw.
\<close>

theorem revoked_forever:
  assumes "fst (auth_revoke (bearer tok) now s) = TokenRevoked \<or>
           fst (auth_revoke (bearer tok) now s) = Failure 500 ''Internal server error''"
  shows "tok \<in> blacklistedTokens (snd (auth_revoke (bearer tok) now s)) \<and>
         blacklistedTokens (snd (auth_revoke (bearer tok) now s))
           \<subseteq> blacklistedTokens (run es (snd (auth_revoke (bearer tok) now s))) \<and>
         fst (check tok now' (run es (snd (auth_revoke (bearer tok) now s)))) = Revoked"
proof -
  let ?s1 = "snd (auth_revoke (bearer tok) now s)"
  obtain tokenData where v: "fst (check tok now s) = Valid tokenData"
    using assms
    by (cases "fst (check tok now s)") (simp_all add: auth_revoke_def behind_verifyToken_bearer)
  then have "?s1 = snd (revoke_handler (bearer tok) tokenData (snd (check tok now s)))"
    by (simp add: auth_revoke_def behind_verifyToken_bearer)
  then have mem: "tok \<in> blacklistedTokens ?s1"
    by (simp add: revoke_handler_bearer)
  have mono: "blacklistedTokens ?s1 \<subseteq> blacklistedTokens (run es ?s1)"
    by (rule run_blacklist)
  with mem have "tok \<in> blacklistedTokens (run es ?s1)" by blast
  then have "fst (check tok now' (run es ?s1)) = Revoked"
    by (simp add: check_def)
  with mem mono show ?thesis by simp
qed

theorem revoked_forever_witness:
  "fst (auth_revoke (bearer token_a) 1700000000500
        \<lparr>tokenStore = [(token_a, session (JStr ''user123'') JNull 1700000000000)],
         blacklistedTokens = {}\<rparr>) = TokenRevoked \<and>
   fst (check token_a 1700009999999
        (run [Issue (JStr ''user123'') JNull (Some token_a) 1700000000600,
              Refresh (bearer token_a) 1700000000700 (Some token_b) 1700000000700,
              Revoke (bearer token_b) 1700000000800,
              Check (bearer token_a) 1700000000900,
              Sweep 1700009999000]
           (snd (auth_revoke (bearer token_a) 1700000000500
              \<lparr>tokenStore = [(token_a, session (JStr ''user123'') JNull 1700000000000)],
               blacklistedTokens = {}\<rparr>)))) = Revoked"
proof -
  let ?s = "\<lparr>tokenStore = [(token_a, session (JStr ''user123'') JNull 1700000000000)],
             blacklistedTokens = {}\<rparr>"
  have h: "fst (auth_revoke (bearer token_a) 1700000000500 ?s) = TokenRevoked"
    by (simp add: auth_revoke_def behind_verifyToken_bearer check_def session_def
        TOKEN_EXPIRY_def revoke_handler_bearer)
  from revoked_forever [OF disjI1 [OF h], where now' = 1700009999999 and es =
      "[Issue (JStr ''user123'') JNull (Some token_a) 1700000000600,
        Refresh (bearer token_a) 1700000000700 (Some token_b) 1700000000700,
        Revoke (bearer token_b) 1700000000800,
        Check (bearer token_a) 1700000000900,
        Sweep 1700009999000]"] h
  show ?thesis by blast
qed

section \<open>Issue, then check\<close>

text \<open>
  C4, as the code has it. Let the server be in a state it has reached from its
  initial state, and let the generator return \<open>tok\<close>, a value it has not returned
  before. Whenever the issue request returns \<open>tok\<close>, \<open>check\<close> of \<open>tok\<close> right afterwards,
  at any time up to \<open>now + 3600000\<close>, answers \<open>Valid\<close> with a record whose \<open>userId\<close> is
  the value supplied and whose \<open>hwid\<close> is the value supplied when that is truthy, and
  null otherwise (line 167: \<^verbatim>\<open>hwid || null\<close>). The request returns \<open>tok\<close> for every
  truthy \<open>userId\<close> that the log line can print; and for every truthy \<open>userId\<close>,
  returned or not, \<open>tok\<close> checks \<open>Valid\<close> with that record.
\<close>

theorem issue_then_check:
  assumes "s = run es initial_state"
    and "tok \<notin> gens es"
    and "now' \<le> now + TOKEN_EXPIRY"
  shows "(fst (auth_token uid hw gen now s) = TokenIssued tok e n \<longrightarrow>
            gen = Some tok \<and> truthy uid \<and> e = now + TOKEN_EXPIRY \<and> n = 3600 \<and>
            check tok now' (snd (auth_token uid hw gen now s)) =
              (Valid \<lparr>userId = uid, hwid = (if truthy hw then hw else JNull),
                       expires = now + TOKEN_EXPIRY, createdAt = now\<rparr>,
               snd (auth_token uid hw gen now s))) \<and>
         (truthy uid \<and> \<not> to_string_throws uid \<longrightarrow>
            fst (auth_token uid hw (Some tok) now s) = TokenIssued tok (now + TOKEN_EXPIRY) 3600) \<and>
         (truthy uid \<longrightarrow>
            check tok now' (snd (auth_token uid hw (Some tok) now s)) =
              (Valid \<lparr>userId = uid, hwid = (if truthy hw then hw else JNull),
                       expires = now + TOKEN_EXPIRY, createdAt = now\<rparr>,
               snd (auth_token uid hw (Some tok) now s)))"
proof -
  have fresh: "tok \<notin> blacklistedTokens s"
    using fresh_unknown(1) [OF assms(2)] assms(1) by simp
  have valid: "check tok now' (snd (auth_token uid hw (Some tok) now s)) =
      (Valid \<lparr>userId = uid, hwid = (if truthy hw then hw else JNull),
               expires = now + TOKEN_EXPIRY, createdAt = now\<rparr>,
       snd (auth_token uid hw (Some tok) now s))" if "truthy uid"
    using that fresh assms(3)
    by (simp add: auth_token_def Let_def check_def AList.update_conv' js_or_def)
  have returned: "gen = Some tok \<and> truthy uid \<and> e = now + TOKEN_EXPIRY \<and> n = 3600"
    if "fst (auth_token uid hw gen now s) = TokenIssued tok e n"
    using that by (cases gen) (auto simp: auth_token_def Let_def split: if_splits)
  have issued: "fst (auth_token uid hw (Some tok) now s) = TokenIssued tok (now + TOKEN_EXPIRY) 3600"
    if "truthy uid" "\<not> to_string_throws uid"
    using that by (simp add: auth_token_def Let_def)
  from valid returned issued show ?thesis by blast
qed

theorem issue_then_check_witness:
  "auth_token (JStr ''user123'') (JStr ''pc-1'') (Some token_b) 1700000000200
       (run [Issue (JStr ''user456'') JNull (Some token_a) 1700000000000] initial_state)
     = (TokenIssued token_b 1700003600200 3600,
        \<lparr>tokenStore = [(token_a, session (JStr ''user456'') JNull 1700000000000),
                       (token_b, session (JStr ''user123'') (JStr ''pc-1'') 1700000000200)],
         blacklistedTokens = {}\<rparr>) \<and>
   fst (check token_b 1700000000201
        \<lparr>tokenStore = [(token_a, session (JStr ''user456'') JNull 1700000000000),
                       (token_b, session (JStr ''user123'') (JStr ''pc-1'') 1700000000200)],
         blacklistedTokens = {}\<rparr>)
     = Valid \<lparr>userId = JStr ''user123'', hwid = JStr ''pc-1'',
              expires = 1700003600200, createdAt = 1700000000200\<rparr>"
proof -
  let ?es = "[Issue (JStr ''user456'') JNull (Some token_a) 1700000000000]"
  let ?s = "run ?es initial_state"
  let ?s' = "\<lparr>tokenStore = [(token_a, session (JStr ''user456'') JNull 1700000000000),
                           (token_b, session (JStr ''user123'') (JStr ''pc-1'') 1700000000200)],
              blacklistedTokens = {}\<rparr>"
  have h1: "?s = run ?es initial_state" by simp
  have h2: "token_b \<notin> gens ?es" by simp
  have h3: "(1700000000201::int) \<le> 1700000000200 + TOKEN_EXPIRY" by (simp add: TOKEN_EXPIRY_def)
  have r: "auth_token (JStr ''user123'') (JStr ''pc-1'') (Some token_b) 1700000000200 ?s
      = (TokenIssued token_b 1700003600200 3600, ?s')"
    by (simp add: initial_state_def auth_token_def session_def js_or_def Let_def TOKEN_EXPIRY_def)
  then have i: "fst (auth_token (JStr ''user123'') (JStr ''pc-1'') (Some token_b) 1700000000200 ?s)
      = TokenIssued token_b 1700003600200 3600" by simp
  from issue_then_check [OF h1 h2 h3, of "JStr ''user123''" "JStr ''pc-1''" "Some token_b"
      1700003600200 3600] i r
  show ?thesis by (simp add: TOKEN_EXPIRY_def)
qed

text \<open>
  The spec promises the \<open>hwid\<close> supplied. Issued with the empty string as \<open>hwid\<close>, the
  token is returned and checks \<open>Valid\<close> with a record whose \<open>hwid\<close> is null.
\<close>

theorem issue_then_check_counterexample:
  "fst (auth_token (JStr ''user123'') (JStr []) (Some token_a) 1700000000000 initial_state)
     = TokenIssued token_a 1700003600000 3600 \<and>
   fst (check token_a 1700000000001
     (snd (auth_token (JStr ''user123'') (JStr []) (Some token_a) 1700000000000 initial_state)))
   = Valid \<lparr>userId = JStr ''user123'', hwid = JNull,
            expires = 1700003600000, createdAt = 1700000000000\<rparr> \<and>
   fst (check token_a 1700000000001
     (snd (auth_token (JStr ''user123'') (JStr []) (Some token_a) 1700000000000 initial_state)))
   \<noteq> Valid \<lparr>userId = JStr ''user123'', hwid = JStr [],
              expires = 1700003600000, createdAt = 1700000000000\<rparr>"
  by (simp add: auth_token_def initial_state_def TOKEN_EXPIRY_def js_or_def check_def)

section \<open>Checking again\<close>

text \<open>
  C5, as the code has it. A second \<open>check\<close> of the same token, with nothing in
  between, at any time: after \<open>Revoked\<close> it answers \<open>Revoked\<close>; after \<open>Unknown\<close> it
  answers \<open>Unknown\<close>; after \<open>Expired\<close> it answers \<open>Unknown\<close>, since the first check
  deleted the record. In each case the second check leaves the state as the first
  left it, and a denial is never followed by \<open>Valid\<close>.
\<close>

theorem recheck_after_denial:
  "(fst (check tok now s) = Revoked \<longrightarrow>
      check tok now' (snd (check tok now s)) = (Revoked, snd (check tok now s))) \<and>
   (fst (check tok now s) = Unknown \<longrightarrow>
      check tok now' (snd (check tok now s)) = (Unknown, snd (check tok now s))) \<and>
   (fst (check tok now s) = Expired \<longrightarrow>
      check tok now' (snd (check tok now s)) = (Unknown, snd (check tok now s))) \<and>
   ((\<forall>r. fst (check tok now s) \<noteq> Valid r) \<longrightarrow>
      (\<forall>r. fst (check tok now' (snd (check tok now s))) \<noteq> Valid r))"
  by (auto simp: check_def AList.delete_conv' split: option.splits if_splits)

theorem recheck_after_denial_witness:
  "fst (check token_a 1700003600001
      \<lparr>tokenStore = [(token_a, session (JStr ''user123'') JNull 1700000000000)],
       blacklistedTokens = {}\<rparr>) = Expired \<and>
   fst (check token_a 1700003600002 (snd (check token_a 1700003600001
      \<lparr>tokenStore = [(token_a, session (JStr ''user123'') JNull 1700000000000)],
       blacklistedTokens = {}\<rparr>))) = Unknown \<and>
   fst (check token_a 1700003600001
      \<lparr>tokenStore = [], blacklistedTokens = {token_a}\<rparr>) = Revoked \<and>
   fst (check token_a 1700003600002 (snd (check token_a 1700003600001
      \<lparr>tokenStore = [], blacklistedTokens = {token_a}\<rparr>))) = Revoked \<and>
   fst (check token_a 1700003600001 initial_state) = Unknown \<and>
   fst (check token_a 1700003600002 (snd (check token_a 1700003600001 initial_state))) = Unknown"
proof -
  let ?s = "\<lparr>tokenStore = [(token_a, session (JStr ''user123'') JNull 1700000000000)],
             blacklistedTokens = {}\<rparr>"
  let ?b = "\<lparr>tokenStore = [], blacklistedTokens = {token_a}\<rparr>"
  have e: "fst (check token_a 1700003600001 ?s) = Expired"
    by (simp add: check_def session_def TOKEN_EXPIRY_def)
  have r: "fst (check token_a 1700003600001 ?b) = Revoked"
    by (simp add: check_def)
  have u: "fst (check token_a 1700003600001 initial_state) = Unknown"
    by (simp add: check_def initial_state_def)
  from recheck_after_denial [of token_a 1700003600001 ?s 1700003600002]
    recheck_after_denial [of token_a 1700003600001 ?b 1700003600002]
    recheck_after_denial [of token_a 1700003600001 initial_state 1700003600002] e r u
  show ?thesis by simp
qed

text \<open>
  The spec promises the same outcome again. For a stored token past its expiry the
  first check answers \<open>Expired\<close> and the second, at the same time, \<open>Unknown\<close>.
\<close>

theorem recheck_after_denial_counterexample:
  "fst (check token_a 1700003600001
      \<lparr>tokenStore = [(token_a, session (JStr ''user123'') JNull 1700000000000)],
       blacklistedTokens = {}\<rparr>) = Expired \<and>
   fst (check token_a 1700003600001 (snd (check token_a 1700003600001
      \<lparr>tokenStore = [(token_a, session (JStr ''user123'') JNull 1700000000000)],
       blacklistedTokens = {}\<rparr>))) = Unknown \<and>
   fst (check token_a 1700003600001 (snd (check token_a 1700003600001
      \<lparr>tokenStore = [(token_a, session (JStr ''user123'') JNull 1700000000000)],
       blacklistedTokens = {}\<rparr>)))
     \<noteq> fst (check token_a 1700003600001
      \<lparr>tokenStore = [(token_a, session (JStr ''user123'') JNull 1700000000000)],
       blacklistedTokens = {}\<rparr>)"
  by (simp add: check_def session_def TOKEN_EXPIRY_def)

section \<open>The sweep\<close>

text \<open>
  C6. For every store (one entry per key, as a \<^verbatim>\<open>Map\<close> has) and every time \<open>now\<close>,
  one run of \<open>cleanupExpiredTokens\<close> deletes exactly the records with
  \<open>now > expires\<close>: the store afterwards is the store before without them, in the same
  order; the blacklist is unchanged; and the counter \<open>cleaned\<close> is the number of
  records deleted, which the log line prints when it is positive.
\<close>

theorem cleanup_deletes_expired:
  assumes "store_ok s"
    and "cleanupExpiredTokens now s = (cleaned, logged, s')"
  shows "tokenStore s' = filter (\<lambda>(tok, tdata). \<not> now > expires tdata) (tokenStore s) \<and>
         map_of (tokenStore s') u =
           (case map_of (tokenStore s) u of
              None \<Rightarrow> None
            | Some tdata \<Rightarrow> if now > expires tdata then None else Some tdata) \<and>
         blacklistedTokens s' = blacklistedTokens s \<and>
         cleaned = length (filter (\<lambda>(tok, tdata). now > expires tdata) (tokenStore s)) \<and>
         cleaned = length (tokenStore s) - length (tokenStore s') \<and>
         logged = (if cleaned > 0 then Some cleaned else None)"
proof -
  let ?keep = "\<lambda>p. \<not> now > expires (snd p)"
  let ?drop = "\<lambda>p. now > expires (snd p)"
  have dist: "distinct (map fst (tokenStore s))"
    using assms(1) by (simp add: store_ok_def)
  have loop: "cleanup_loop now (tokenStore s) (tokenStore s) 0
      = (filter ?keep (tokenStore s), length (filter ?drop (tokenStore s)))"
    by (rule cleanup_loop_self [OF dist])
  have store: "tokenStore s' = filter ?keep (tokenStore s)"
    and count: "cleaned = length (filter ?drop (tokenStore s))"
    and black: "blacklistedTokens s' = blacklistedTokens s"
    and logd: "logged = (if cleaned > 0 then Some cleaned else None)"
    using assms(2) by (auto simp: cleanupExpiredTokens_def loop)
  have lookup: "map_of (filter ?keep (tokenStore s)) u =
      (case map_of (tokenStore s) u of
         None \<Rightarrow> None
       | Some tdata \<Rightarrow> if now > expires tdata then None else Some tdata)"
  proof (cases "map_of (tokenStore s) u")
    case None
    then have "u \<notin> fst ` set (tokenStore s)" by (simp add: map_of_eq_None_iff)
    then have "u \<notin> fst ` set (filter ?keep (tokenStore s))" by auto
    then have "map_of (filter ?keep (tokenStore s)) u = None"
      by (rule map_of_eq_None_iff [THEN iffD2])
    then show ?thesis using None by simp
  next
    case (Some tdata)
    then have mem: "(u, tdata) \<in> set (tokenStore s)" by (rule map_of_SomeD)
    show ?thesis
    proof (cases "now > expires tdata")
      case True
      have "u \<notin> fst ` set (filter ?keep (tokenStore s))"
      proof
        assume "u \<in> fst ` set (filter ?keep (tokenStore s))"
        then obtain d where d: "(u, d) \<in> set (tokenStore s)" and k: "\<not> now > expires d"
          by auto
        from dist d mem have "d = tdata" by (meson eq_key_imp_eq_value)
        with k True show False by simp
      qed
      then have "map_of (filter ?keep (tokenStore s)) u = None"
        by (rule map_of_eq_None_iff [THEN iffD2])
      then show ?thesis using Some True by simp
    next
      case False
      have "distinct (map fst (filter ?keep (tokenStore s)))"
        using dist by (simp add: distinct_map_filter)
      moreover have "(u, tdata) \<in> set (filter ?keep (tokenStore s))"
        using mem False by simp
      ultimately have "map_of (filter ?keep (tokenStore s)) u = Some tdata"
        by (rule map_of_is_SomeI)
      then show ?thesis using Some False by simp
    qed
  qed
  have len: "length (filter ?drop (tokenStore s))
      = length (tokenStore s) - length (filter ?keep (tokenStore s))"
    using sum_length_filter_compl [of ?drop "tokenStore s"] by simp
  have eqs: "?keep = (\<lambda>(tok, tdata). \<not> now > expires tdata)"
    "?drop = (\<lambda>(tok, tdata). now > expires tdata)"
    by auto
  show ?thesis
    using store count black logd lookup len unfolding eqs by simp
qed

theorem cleanup_deletes_expired_witness:
  "store_ok \<lparr>tokenStore = [(token_a, session (JStr ''user123'') JNull 1700000000000),
                          (token_b, session (JStr ''user456'') JNull 1700000000002),
                          (token_c, session (JStr ''user789'') JNull 1700000000001)],
             blacklistedTokens = {token_a}\<rparr> \<and>
   cleanupExpiredTokens 1700003600002
       \<lparr>tokenStore = [(token_a, session (JStr ''user123'') JNull 1700000000000),
                      (token_b, session (JStr ''user456'') JNull 1700000000002),
                      (token_c, session (JStr ''user789'') JNull 1700000000001)],
        blacklistedTokens = {token_a}\<rparr>
     = (2, Some 2,
        \<lparr>tokenStore = [(token_b, session (JStr ''user456'') JNull 1700000000002)],
         blacklistedTokens = {token_a}\<rparr>) \<and>
   (2::nat) = length [(token_a, session (JStr ''user123'') JNull 1700000000000),
                      (token_b, session (JStr ''user456'') JNull 1700000000002),
                      (token_c, session (JStr ''user789'') JNull 1700000000001)]
              - length [(token_b, session (JStr ''user456'') JNull 1700000000002)]"
proof -
  let ?s = "\<lparr>tokenStore = [(token_a, session (JStr ''user123'') JNull 1700000000000),
                          (token_b, session (JStr ''user456'') JNull 1700000000002),
                          (token_c, session (JStr ''user789'') JNull 1700000000001)],
             blacklistedTokens = {token_a}\<rparr>"
  let ?s' = "\<lparr>tokenStore = [(token_b, session (JStr ''user456'') JNull 1700000000002)],
              blacklistedTokens = {token_a}\<rparr>"
  have ok: "store_ok ?s" by (simp add: store_ok_def)
  have sweep: "cleanupExpiredTokens 1700003600002 ?s = (2, Some 2, ?s')"
    by (simp add: cleanupExpiredTokens_def session_def TOKEN_EXPIRY_def)
  from cleanup_deletes_expired [OF ok sweep, of token_a] ok sweep show ?thesis
    by (simp add: session_def TOKEN_EXPIRY_def)
qed

section \<open>Issue\<close>




section \<open>What the gate writes\<close>

text \<open>
  C8, as the code has it. \<open>check\<close> never writes the blacklist. When the answer is
  \<open>Revoked\<close>, \<open>Unknown\<close> or \<open>Valid\<close> it leaves the state as it was. When the answer is
  \<open>Expired\<close> it deletes the presented token's record from the store (line 89) and
  leaves the record under every other token as it was.
\<close>

theorem check_writes:
  "blacklistedTokens (snd (check tok now s)) = blacklistedTokens s \<and>
   (fst (check tok now s) \<noteq> Expired \<longrightarrow> snd (check tok now s) = s) \<and>
   (fst (check tok now s) = Expired \<longrightarrow>
      tokenStore (snd (check tok now s)) = AList.delete tok (tokenStore s) \<and>
      map_of (tokenStore (snd (check tok now s))) tok = None \<and>
      map_of (tokenStore s) tok \<noteq> None) \<and>
   (u \<noteq> tok \<longrightarrow> map_of (tokenStore (snd (check tok now s))) u = map_of (tokenStore s) u)"
  by (simp add: check_def AList.delete_conv' split: option.split)

theorem check_writes_witness:
  "fst (check token_a 1700003600001
      \<lparr>tokenStore = [(token_a, session (JStr ''user123'') JNull 1700000000000),
                     (token_b, session (JStr ''user456'') JNull 1700000000000)],
       blacklistedTokens = {}\<rparr>) = Expired \<and>
   tokenStore (snd (check token_a 1700003600001
      \<lparr>tokenStore = [(token_a, session (JStr ''user123'') JNull 1700000000000),
                     (token_b, session (JStr ''user456'') JNull 1700000000000)],
       blacklistedTokens = {}\<rparr>))
     = [(token_b, session (JStr ''user456'') JNull 1700000000000)] \<and>
   map_of (tokenStore (snd (check token_a 1700003600001
      \<lparr>tokenStore = [(token_a, session (JStr ''user123'') JNull 1700000000000),
                     (token_b, session (JStr ''user456'') JNull 1700000000000)],
       blacklistedTokens = {}\<rparr>))) token_b
     = Some (session (JStr ''user456'') JNull 1700000000000) \<and>
   snd (check token_b 1700003600000
      \<lparr>tokenStore = [(token_a, session (JStr ''user123'') JNull 1700000000000),
                     (token_b, session (JStr ''user456'') JNull 1700000000000)],
       blacklistedTokens = {}\<rparr>)
     = \<lparr>tokenStore = [(token_a, session (JStr ''user123'') JNull 1700000000000),
                      (token_b, session (JStr ''user456'') JNull 1700000000000)],
        blacklistedTokens = {}\<rparr>"
proof -
  let ?s = "\<lparr>tokenStore = [(token_a, session (JStr ''user123'') JNull 1700000000000),
                          (token_b, session (JStr ''user456'') JNull 1700000000000)],
             blacklistedTokens = {}\<rparr>"
  have e: "fst (check token_a 1700003600001 ?s) = Expired"
    and v: "fst (check token_b 1700003600000 ?s) \<noteq> Expired"
    by (simp_all add: check_def session_def TOKEN_EXPIRY_def)
  have n: "token_b \<noteq> token_a" by simp
  from check_writes [of token_a 1700003600001 ?s token_b]
    check_writes [of token_b 1700003600000 ?s token_a] e v n
  show ?thesis by simp
qed

text \<open>
  The spec promises that no outcome writes. For a stored token past its expiry the
  check answers \<open>Expired\<close> and leaves a store without the record.
\<close>

theorem check_writes_counterexample:
  "fst (check token_a 1700003600001
      \<lparr>tokenStore = [(token_a, session (JStr ''user123'') JNull 1700000000000)],
       blacklistedTokens = {}\<rparr>) = Expired \<and>
   tokenStore (snd (check token_a 1700003600001
      \<lparr>tokenStore = [(token_a, session (JStr ''user123'') JNull 1700000000000)],
       blacklistedTokens = {}\<rparr>)) = [] \<and>
   snd (check token_a 1700003600001
      \<lparr>tokenStore = [(token_a, session (JStr ''user123'') JNull 1700000000000)],
       blacklistedTokens = {}\<rparr>)
     \<noteq> \<lparr>tokenStore = [(token_a, session (JStr ''user123'') JNull 1700000000000)],
         blacklistedTokens = {}\<rparr>"
  by (simp add: check_def session_def TOKEN_EXPIRY_def)

section \<open>Revoking twice\<close>

text \<open>
  C9. The effect of revocation on the data (lines 229 and 232: add the token to the
  blacklist, delete it from the store) applied twice leaves exactly the state that
  applying it once leaves. The same holds when the second revocation comes as a
  request through \<open>verifyToken\<close>, which turns it away.
\<close>

theorem revoke_twice:
  "snd (revoke_handler (bearer tok) r' (snd (revoke_handler (bearer tok) r s)))
     = snd (revoke_handler (bearer tok) r s) \<and>
   snd (auth_revoke (bearer tok) now (snd (revoke_handler (bearer tok) r s)))
     = snd (revoke_handler (bearer tok) r s) \<and>
   blacklistedTokens (snd (revoke_handler (bearer tok) r s)) = insert tok (blacklistedTokens s) \<and>
   tokenStore (snd (revoke_handler (bearer tok) r s)) = AList.delete tok (tokenStore s)"
  by (simp add: revoke_handler_bearer auth_revoke_def behind_verifyToken_bearer check_def
      AList.delete_idem)

section \<open>Other tokens\<close>

text \<open>
  C10. A request to revoke or to refresh the token \<open>tok\<close> leaves every other token \<open>u\<close>
  alone: \<open>u\<close> is blacklisted afterwards exactly when it was before, and, unless \<open>u\<close> is
  the token the refresh mints, the store holds under \<open>u\<close> what it held before. Neither
  request removes a token from the blacklist.
\<close>

theorem revoke_refresh_local:
  "(u \<noteq> tok \<longrightarrow>
      map_of (tokenStore (snd (auth_revoke (bearer tok) now s))) u = map_of (tokenStore s) u \<and>
      (u \<in> blacklistedTokens (snd (auth_revoke (bearer tok) now s)) \<longleftrightarrow> u \<in> blacklistedTokens s)) \<and>
   (u \<noteq> tok \<longrightarrow>
      (u \<in> blacklistedTokens (snd (auth_refresh (bearer tok) now gen now' s))
         \<longleftrightarrow> u \<in> blacklistedTokens s)) \<and>
   (u \<noteq> tok \<and> gen \<noteq> Some u \<longrightarrow>
      map_of (tokenStore (snd (auth_refresh (bearer tok) now gen now' s))) u
        = map_of (tokenStore s) u) \<and>
   blacklistedTokens s \<subseteq> blacklistedTokens (snd (auth_revoke (bearer tok) now s)) \<and>
   blacklistedTokens s \<subseteq> blacklistedTokens (snd (auth_refresh (bearer tok) now gen now' s))"
  by (cases gen)
     (auto simp: auth_revoke_def auth_refresh_def behind_verifyToken_bearer revoke_handler_bearer
        refresh_handler_bearer refresh_handler_bearer_None check_def AList.delete_conv'
        AList.update_conv'
      split: option.splits if_splits gate.splits)

theorem revoke_refresh_local_witness:
  "map_of (tokenStore (snd (auth_revoke (bearer token_a) 1700000000500
      \<lparr>tokenStore = [(token_a, session (JStr ''user123'') JNull 1700000000000),
                     (token_b, session (JStr ''user456'') JNull 1700000000100)],
       blacklistedTokens = {}\<rparr>))) token_b
     = Some (session (JStr ''user456'') JNull 1700000000100) \<and>
   token_b \<notin> blacklistedTokens (snd (auth_revoke (bearer token_a) 1700000000500
      \<lparr>tokenStore = [(token_a, session (JStr ''user123'') JNull 1700000000000),
                     (token_b, session (JStr ''user456'') JNull 1700000000100)],
       blacklistedTokens = {}\<rparr>)) \<and>
   map_of (tokenStore (snd (auth_refresh (bearer token_a) 1700000000500 (Some token_c) 1700000000501
      \<lparr>tokenStore = [(token_a, session (JStr ''user123'') JNull 1700000000000),
                     (token_b, session (JStr ''user456'') JNull 1700000000100)],
       blacklistedTokens = {}\<rparr>))) token_b
     = Some (session (JStr ''user456'') JNull 1700000000100) \<and>
   token_b \<notin> blacklistedTokens
     (snd (auth_refresh (bearer token_a) 1700000000500 (Some token_c) 1700000000501
      \<lparr>tokenStore = [(token_a, session (JStr ''user123'') JNull 1700000000000),
                     (token_b, session (JStr ''user456'') JNull 1700000000100)],
       blacklistedTokens = {}\<rparr>))"
proof -
  let ?s = "\<lparr>tokenStore = [(token_a, session (JStr ''user123'') JNull 1700000000000),
                          (token_b, session (JStr ''user456'') JNull 1700000000100)],
             blacklistedTokens = {}\<rparr>"
  have n: "token_b \<noteq> token_a" and g: "Some token_c \<noteq> Some token_b" by simp_all
  from revoke_refresh_local
    [of token_b token_a 1700000000500 ?s "Some token_c" 1700000000501] n g
  show ?thesis by simp
qed

end
